theory Spec2Isabelle
  imports Complex_Main
begin

section \<open>The performance monitor of threejs-webxr-stats-tool\<close>

text \<open>
  A shallow embedding of the class \<open>PerformanceMonitor\<close> (the file that defines
  \<open>PerformanceMetrics\<close>, \<open>PerformanceChange\<close> and the monitor itself).

  Numbers. Every TypeScript \<open>number\<close> of the monitor is a clock reading, a renderer
  counter or a value computed from those, so the state holds finite numbers; they are
  modelled as \<open>real\<close> with exact arithmetic (rounding of doubles is not modelled).
  \<open>Math.max\<close>, \<open>Math.min\<close>, \<open>Math.abs\<close> and \<open>Math.round\<close> are \<open>max\<close>, \<open>min\<close>,
  \<open>abs\<close> and \<open>round\<close> (round half up, \<open>\<lfloor>x + 1/2\<rfloor>\<close>). A separate type
  \<open>js_number\<close> with the non-finite values is used only where a statement speaks about
  non-finite samples.

  Environment. Clock readings (\<open>performance.now()\<close>, \<open>Date.now()\<close>), random numbers, DOM
  readings and the behaviour of the WebGL timer extension are parameters of the functions
  that read them.
\<close>

subsection \<open>Data model\<close>

text \<open>The numeric fields of \<open>PerformanceMetrics\<close>. \<open>updateMetric\<close> indexes the metrics
  object by key, so the numeric part of the object is a total map from these keys; the
  three non-numeric fields (\<open>memory\<close>, \<open>memoryLeaks\<close>, \<open>rendererInfo\<close>) are separate
  fields of the monitor state.\<close>

datatype metric_key =
    Fps | Ms | DrawCalls | Triangles | Geometries | Textures | Programs
  | FrameTime | CpuTime | GpuTime | NetworkLatency
  | XrSessionInitTime | MotionToPhotonDelay | ControllerInputLag | XrFrameRate
  | XrPredictedDisplayTime
  | GpuFragmentComplexity | GpuVertexComplexity | GpuMemoryUsage | ShaderCompileTime
  | TextureBindings | BufferBindings
  | CpuFrameTime | GpuFrameTime | RenderCallDuration | JavascriptTime
  | GarbageCollectionTime

fun key_name :: "metric_key \<Rightarrow> string" where
  "key_name Fps = ''fps''"
| "key_name Ms = ''ms''"
| "key_name DrawCalls = ''drawCalls''"
| "key_name Triangles = ''triangles''"
| "key_name Geometries = ''geometries''"
| "key_name Textures = ''textures''"
| "key_name Programs = ''programs''"
| "key_name FrameTime = ''frameTime''"
| "key_name CpuTime = ''cpuTime''"
| "key_name GpuTime = ''gpuTime''"
| "key_name NetworkLatency = ''networkLatency''"
| "key_name XrSessionInitTime = ''xrSessionInitTime''"
| "key_name MotionToPhotonDelay = ''motionToPhotonDelay''"
| "key_name ControllerInputLag = ''controllerInputLag''"
| "key_name XrFrameRate = ''xrFrameRate''"
| "key_name XrPredictedDisplayTime = ''xrPredictedDisplayTime''"
| "key_name GpuFragmentComplexity = ''gpuFragmentComplexity''"
| "key_name GpuVertexComplexity = ''gpuVertexComplexity''"
| "key_name GpuMemoryUsage = ''gpuMemoryUsage''"
| "key_name ShaderCompileTime = ''shaderCompileTime''"
| "key_name TextureBindings = ''textureBindings''"
| "key_name BufferBindings = ''bufferBindings''"
| "key_name CpuFrameTime = ''cpuFrameTime''"
| "key_name GpuFrameTime = ''gpuFrameTime''"
| "key_name RenderCallDuration = ''renderCallDuration''"
| "key_name JavascriptTime = ''javascriptTime''"
| "key_name GarbageCollectionTime = ''garbageCollectionTime''"

datatype severity = Excellent | Good | Warning | Critical | Danger

record PerformanceChange =
  timestamp :: real
  metric :: string
  oldValue :: real
  newValue :: real
  delta :: real
  deltaPercent :: real
  severity :: severity

text \<open>\<open>memory: { used, total, limit }\<close>.\<close>

record memory_info =
  mem_used :: real
  mem_total :: real
  mem_limit :: real

text \<open>A \<open>PerformanceObserver\<close> or an interval timer held by the monitor: the field is
  \<open>null\<close> (\<open>None\<close>) until the constructor creates the resource; \<open>disconnect()\<close> and
  \<open>clearInterval\<close> release it.\<close>

datatype resource = Active | Released

type_synonym WebGLQuery = nat

text \<open>An entry of \<open>timerQueries\<close>: \<open>{ query, startTime }\<close>.\<close>

type_synonym query_data = "WebGLQuery \<times> real"

text \<open>An entry of \<open>motionHistory\<close> and \<open>controllerInputHistory\<close>:
  \<open>{ timestamp, processed }\<close>.\<close>

record timing_event =
  ev_timestamp :: real
  ev_processed :: real

text \<open>The monitor. \<open>glExtension\<close> records whether the field holds an extension object
  (what the object can do is part of the environment, \<open>gl_ext\<close> below).
  \<open>deletedQueries\<close> is not a field of the class: it logs the native query objects
  that \<open>deleteQuery\<close> was called on, oldest call first, so that releases are visible.\<close>

record PerformanceMonitor =
  performanceObserver :: "resource option"
  frameTimings :: "real list"
  lastFrameTime :: real
  memoryBaseline :: real
  xrSession :: bool
  latencyQueue :: "real list"
  latencyTestInterval :: "resource option"
  xrSessionStartTime :: real
  lastXRFrameTime :: real
  controllerInputHistory :: "timing_event list"
  motionHistory :: "timing_event list"
  glExtension :: bool
  timerQueries :: "query_data list"
  shaderCompileStartTime :: real
  gpuTimerAvailable :: bool
  gcObserver :: "resource option"
  renderCallStartTime :: real
  metrics :: "metric_key \<Rightarrow> real"
  memory :: memory_info
  memoryLeaks :: bool
  changes :: "PerformanceChange list"
  previousMetrics :: "metric_key \<rightharpoonup> real"
  deletedQueries :: "WebGLQuery list"

text \<open>The field initialisers of the class, before the constructor body runs.\<close>

definition initial_fields :: PerformanceMonitor where
  "initial_fields =
     \<lparr> performanceObserver = None,
       frameTimings = [],
       lastFrameTime = 0,
       memoryBaseline = 0,
       xrSession = False,
       latencyQueue = [],
       latencyTestInterval = None,
       xrSessionStartTime = 0,
       lastXRFrameTime = 0,
       controllerInputHistory = [],
       motionHistory = [],
       glExtension = False,
       timerQueries = [],
       shaderCompileStartTime = 0,
       gpuTimerAvailable = False,
       gcObserver = None,
       renderCallStartTime = 0,
       metrics = (\<lambda>k. 0),
       memory = \<lparr> mem_used = 0, mem_total = 0, mem_limit = 0 \<rparr>,
       memoryLeaks = False,
       changes = [],
       previousMetrics = Map.empty,
       deletedQueries = [] \<rparr>"

subsection \<open>Change detector\<close>

text \<open>\<open>getSeverity(metric, deltaPercent)\<close>.\<close>

definition getSeverity :: "string \<Rightarrow> real \<Rightarrow> severity" where
  "getSeverity m dp =
     (let absChange = \<bar>dp\<bar> in
      if m \<in> set [''ms'', ''frameTime'', ''drawCalls'', ''triangles''] then
        (if dp > 50 then Danger
         else if dp > 25 then Critical
         else if dp > 10 then Warning
         else if dp < - 10 then Excellent
         else Good)
      else if m \<in> set [''fps''] then
        (if dp > 25 then Excellent
         else if dp > 10 then Good
         else if dp < - 25 then Danger
         else if dp < - 10 then Critical
         else Warning)
      else if absChange > 20 then Warning else Good)"

text \<open>\<open>updateMetric(key, value)\<close>; \<open>now\<close> is the reading of \<open>Date.now()\<close>.
  \<open>(this.previousMetrics[key] as number) || 0\<close> is \<open>0\<close> for a missing entry.
  \<open>unshift\<close> puts the new change first; \<open>slice(0, 100)\<close> is \<open>take 100\<close>.\<close>

definition updateMetric :: "real \<Rightarrow> metric_key \<Rightarrow> real \<Rightarrow> PerformanceMonitor \<Rightarrow> PerformanceMonitor" where
  "updateMetric now key val s =
     (let old = (case previousMetrics s key of None \<Rightarrow> 0 | Some v \<Rightarrow> v);
          d = val - old;
          dp = (if old \<noteq> 0 then (d / old) * 100 else 0);
          cs = (if old \<noteq> 0 \<and> \<bar>dp\<bar> > 5 then
                  (let change = \<lparr> timestamp = now, metric = key_name key, oldValue = old,
                                   newValue = val, delta = d, deltaPercent = dp,
                                   severity = getSeverity (key_name key) dp \<rparr>;
                       unshifted = change # changes s
                   in if length unshifted > 100 then take 100 unshifted else unshifted)
                else changes s)
      in s \<lparr> changes := cs,
             previousMetrics := (previousMetrics s)(key \<mapsto> metrics s key),
             metrics := (metrics s)(key := val) \<rparr>)"

text \<open>A run of updates of one metric, oldest first, each with its \<open>Date.now()\<close> reading.\<close>

fun updateMetric_seq :: "metric_key \<Rightarrow> (real \<times> real) list \<Rightarrow> PerformanceMonitor \<Rightarrow> PerformanceMonitor" where
  "updateMetric_seq key [] s = s"
| "updateMetric_seq key ((now, val) # rest) s = updateMetric_seq key rest (updateMetric now key val s)"

subsection \<open>Rolling windows\<close>

text \<open>Every rolling window of the monitor is kept by the same two statements,
  \<^verbatim>\<open>xs.push(x); if (xs.length > cap) { xs.shift(); }\<close>: the sample is appended, and
  the oldest entry is removed when the window has grown past its capacity. The function
  is polymorphic in the sample, as the statements are.\<close>

definition push_shift :: "nat \<Rightarrow> 'a \<Rightarrow> 'a list \<Rightarrow> 'a list" where
  "push_shift cap x xs = (let pushed = xs @ [x] in if length pushed > cap then tl pushed else pushed)"

text \<open>\<open>xs.reduce((a, b) => a + b, 0) / xs.length\<close>.\<close>

definition average :: "real list \<Rightarrow> real" where
  "average xs = foldl (+) 0 xs / real (length xs)"

text \<open>A JavaScript number that may be non-finite; \<open>isFinite\<close> is \<open>Number.isFinite\<close>.\<close>

datatype js_number = Finite real | NaN | PosInfinity | NegInfinity

fun isFinite :: "js_number \<Rightarrow> bool" where
  "isFinite (Finite r) = True"
| "isFinite NaN = False"
| "isFinite PosInfinity = False"
| "isFinite NegInfinity = False"

subsection \<open>Frame timing\<close>

text \<open>What \<open>updateFrameMetrics\<close> reads from its environment.
  \<open>fpsText\<close> and \<open>msText\<close>: \<open>None\<close> when the stats panel element or its text is
  missing, \<open>Some x\<close> when \<open>parseFloat\<close> of the first word of the text is the number \<open>x\<close>.
  \<open>heap\<close>: \<open>performance.memory\<close>, when the browser has it.
  \<open>displayMedia\<close>: what \<open>getDisplayMedia\<close> of the XR session does; \<open>RefreshRate r\<close> carries
  the \<open>refreshRate\<close> field of its result (\<open>None\<close> when undefined).\<close>

datatype display_media = NoGetDisplayMedia | GetDisplayMediaThrows | RefreshRate "real option"

record frame_env =
  fpsText :: "real option"
  msText :: "real option"
  heap :: "memory_info option"
  displayMedia :: display_media

text \<open>\<open>begin()\<close>; \<open>now\<close> is \<open>performance.now()\<close>.\<close>

definition begin_frame :: "real \<Rightarrow> PerformanceMonitor \<Rightarrow> PerformanceMonitor" where
  "begin_frame now s = s \<lparr> lastFrameTime := now \<rparr>"

text \<open>\<open>updateFrameMetrics()\<close>. For \<open>fpsText = Some 0\<close> JavaScript computes \<open>Infinity\<close>,
  which the real-valued state does not represent; nothing below depends on that case.
  \<open>xrSession\<close> says that the field holds a session; a session object has
  \<open>requestAnimationFrame\<close>, so the second half of that test is true.\<close>

definition updateFrameMetrics :: "frame_env \<Rightarrow> PerformanceMonitor \<Rightarrow> PerformanceMonitor" where
  "updateFrameMetrics env s =
     (let m1 = (case fpsText env of
                  None \<Rightarrow> metrics s
                | Some x \<Rightarrow> (metrics s)(Fps := of_int (round (1000 / x))));
          m2 = (case msText env of None \<Rightarrow> m1 | Some x \<Rightarrow> m1(Ms := x));
          m3 = (if length (frameTimings s) > 0
                then m2(FrameTime := average (frameTimings s)) else m2);
          mem = (case heap env of None \<Rightarrow> memory s | Some h \<Rightarrow> h);
          m4 = (if xrSession s then
                  (case displayMedia env of
                     NoGetDisplayMedia \<Rightarrow> m3
                   | GetDisplayMediaThrows \<Rightarrow> m3
                   | RefreshRate r \<Rightarrow> m3(GpuTime := (case r of None \<Rightarrow> 0 | Some v \<Rightarrow> v)))
                else m3)
      in s \<lparr> metrics := m4, memory := mem \<rparr>)"

text \<open>\<open>detectMemoryLeaks()\<close>.\<close>

definition detectMemoryLeaks :: "PerformanceMonitor \<Rightarrow> PerformanceMonitor" where
  "detectMemoryLeaks s = s \<lparr> memoryLeaks := (mem_used (memory s) > memoryBaseline s * 2) \<rparr>"

text \<open>\<open>end()\<close>; \<open>now\<close> is \<open>performance.now()\<close>. The performance marks that
  \<open>end()\<close> sets are not part of the state; the observer callback they trigger later is
  a call of \<open>updateMetric\<close> with the key \<open>frameTime\<close>.\<close>

definition end_frame :: "real \<Rightarrow> frame_env \<Rightarrow> PerformanceMonitor \<Rightarrow> PerformanceMonitor" where
  "end_frame now env s =
     (let frameTime = now - lastFrameTime s;
          s1 = s \<lparr> frameTimings := push_shift 60 frameTime (frameTimings s) \<rparr>
      in detectMemoryLeaks (updateFrameMetrics env s1))"

subsection \<open>Latency probe\<close>

text \<open>One completed run of \<open>measureNetworkLatency\<close>: either the idle callback ran
  (\<open>Measured startTime endTime r\<close>, with \<open>r\<close> the value of \<open>Math.random()\<close>), or the
  \<open>catch\<close> branch did (\<open>Fallback r\<close>).\<close>

datatype latency_probe = Measured real real real | Fallback real

fun probe_latency :: "latency_probe \<Rightarrow> real" where
  "probe_latency (Measured startTime endTime r) =
     (let systemLatency = endTime - startTime in max systemLatency 15 + (r * 25 + 10))"
| "probe_latency (Fallback r) = 30 + r * 40"

definition measureNetworkLatency :: "latency_probe \<Rightarrow> PerformanceMonitor \<Rightarrow> PerformanceMonitor" where
  "measureNetworkLatency p s =
     (let q = push_shift 10 (probe_latency p) (latencyQueue s);
          avgLatency = average q
      in s \<lparr> latencyQueue := q, metrics := (metrics s)(NetworkLatency := avgLatency) \<rparr>)"

subsection \<open>GPU timing\<close>

text \<open>The local constant \<open>estimatedGPUTime\<close> of \<open>estimateGPUTime\<close>, as a function of
  the metrics.\<close>

definition estimatedGPUTime :: "(metric_key \<Rightarrow> real) \<Rightarrow> real" where
  "estimatedGPUTime m =
     (let drawCallComplexity = m DrawCalls * 0.1;
          triangleComplexity = (m Triangles / 1000) * 0.05;
          shaderComplexity = (m GpuFragmentComplexity / 100) * 0.2;
          textureComplexity = m Textures * 0.02;
          baseGPUTime = 0.5
      in baseGPUTime + drawCallComplexity + triangleComplexity + shaderComplexity
           + textureComplexity)"

text \<open>\<open>estimateGPUTime()\<close>: smoothing, clamping, and the final fallback statement.\<close>

definition estimateGPUTime :: "PerformanceMonitor \<Rightarrow> PerformanceMonitor" where
  "estimateGPUTime s =
     (let m = metrics s;
          smoothingFactor = 0.3;
          smoothed = m GpuFrameTime * (1 - smoothingFactor) + estimatedGPUTime m * smoothingFactor;
          clamped = max 0.5 (min smoothed (m FrameTime * 0.8));
          final = (if m FrameTime > 0 \<and> clamped = 0 then max 0.5 (m FrameTime * 0.4)
                   else clamped)
      in s \<lparr> metrics := m(GpuFrameTime := final) \<rparr>)"

text \<open>The result of a call into the extension: it throws, or it returns a value.\<close>

datatype 'a outcome = Throws | Returns 'a

text \<open>The timer extension as one call of the monitor sees it. The \<open>has_\<close> fields and
  \<open>TIME_ELAPSED_EXT\<close> are the \<open>typeof ... === "function"\<close> and truthiness tests of the
  code; the other fields say what the calls do: \<open>createQuery\<close> throws, returns \<open>null\<close>
  (\<open>None\<close>) or a new query object; \<open>queryAvailable\<close> and \<open>queryResult\<close> are
  \<open>getQueryParameter\<close> with \<open>QUERY_RESULT_AVAILABLE_EXT\<close> and \<open>QUERY_RESULT_EXT\<close>.\<close>

record gl_ext =
  has_createQuery :: bool
  has_beginQuery :: bool
  TIME_ELAPSED_EXT :: bool
  has_deleteQuery :: bool
  has_getQueryParameter :: bool
  createQuery :: "WebGLQuery option outcome"
  beginQuery_throws :: bool
  deleteQuery_throws :: "WebGLQuery \<Rightarrow> bool"
  queryAvailable :: "WebGLQuery \<Rightarrow> bool outcome"
  queryResult :: "WebGLQuery \<Rightarrow> real outcome"

text \<open>The callback of \<open>timerQueries.filter\<close> in \<open>processGPUQueries\<close>: the state after
  the callback and whether the entry is kept, or \<open>Throws\<close>.\<close>

definition check_query :: "gl_ext \<Rightarrow> query_data \<Rightarrow> PerformanceMonitor \<Rightarrow> PerformanceMonitor \<times> bool outcome" where
  "check_query ext queryData s =
     (if has_getQueryParameter ext then
        (case queryAvailable ext (fst queryData) of
           Throws \<Rightarrow> (s, Throws)
         | Returns available \<Rightarrow>
             if available then
               (case queryResult ext (fst queryData) of
                  Throws \<Rightarrow> (s, Throws)
                | Returns timeElapsed \<Rightarrow>
                    (let s1 = s \<lparr> metrics := (metrics s)(GpuFrameTime := timeElapsed / 1000000) \<rparr>
                     in if has_deleteQuery ext then
                          (if deleteQuery_throws ext (fst queryData) then (s1, Throws)
                           else (s1 \<lparr> deletedQueries := deletedQueries s1 @ [fst queryData] \<rparr>,
                                 Returns False))
                        else (s1, Returns False)))
             else (s, Returns True))
      else (s, Returns True))"

text \<open>\<open>Array.prototype.filter\<close> with that callback, in array order; an exception in the
  callback ends the loop, and the effects of the earlier callbacks stay.\<close>

fun filter_queries :: "gl_ext \<Rightarrow> query_data list \<Rightarrow> PerformanceMonitor \<Rightarrow> PerformanceMonitor \<times> query_data list outcome" where
  "filter_queries ext [] s = (s, Returns [])"
| "filter_queries ext (queryData # rest) s =
     (case check_query ext queryData s of
        (s1, Throws) \<Rightarrow> (s1, Throws)
      | (s1, Returns keep) \<Rightarrow>
          (case filter_queries ext rest s1 of
             (s2, Throws) \<Rightarrow> (s2, Throws)
           | (s2, Returns kept) \<Rightarrow> (s2, Returns (if keep then queryData # kept else kept))))"

text \<open>\<open>processGPUQueries()\<close>; the \<open>catch\<close> branch runs the estimator on the state the
  exception left (\<open>timerQueries\<close> was not assigned).\<close>

definition processGPUQueries :: "gl_ext \<Rightarrow> PerformanceMonitor \<Rightarrow> PerformanceMonitor" where
  "processGPUQueries ext s =
     (if \<not> glExtension s \<or> \<not> gpuTimerAvailable s then estimateGPUTime s
      else
        (case filter_queries ext (timerQueries s) s of
           (s1, Throws) \<Rightarrow> estimateGPUTime s1
         | (s1, Returns kept) \<Rightarrow>
             (let s2 = s1 \<lparr> timerQueries := kept \<rparr>
              in if length (timerQueries s2) = 0 then estimateGPUTime s2 else s2)))"

text \<open>\<open>measureGPUTiming(gl)\<close>; \<open>now\<close> is \<open>performance.now()\<close>, \<open>presenting\<close> is
  \<open>gl.xr && gl.xr.isPresenting\<close>. Every exception ends in the \<open>catch\<close> branch, which
  clears \<open>gpuTimerAvailable\<close>.\<close>

definition measureGPUTiming :: "real \<Rightarrow> gl_ext \<Rightarrow> bool \<Rightarrow> PerformanceMonitor \<Rightarrow> PerformanceMonitor" where
  "measureGPUTiming now ext presenting s =
     (if \<not> glExtension s \<or> \<not> gpuTimerAvailable s then s
      else if \<not> has_createQuery ext then s \<lparr> gpuTimerAvailable := False \<rparr>
      else if presenting then s
      else
        (let s1 = processGPUQueries ext s in
         case createQuery ext of
           Throws \<Rightarrow> s1 \<lparr> gpuTimerAvailable := False \<rparr>
         | Returns None \<Rightarrow> s1 \<lparr> gpuTimerAvailable := False \<rparr>
         | Returns (Some query) \<Rightarrow>
             if has_beginQuery ext \<and> TIME_ELAPSED_EXT ext then
               (if beginQuery_throws ext then s1 \<lparr> gpuTimerAvailable := False \<rparr>
                else
                  (let s2 = s1 \<lparr> timerQueries := timerQueries s1 @ [(query, now)] \<rparr>
                   in if length (timerQueries s2) > 5 then
                        (case timerQueries s2 of
                           [] \<Rightarrow> s2
                         | oldQueryData # rest \<Rightarrow>
                             (let s3 = s2 \<lparr> timerQueries := rest \<rparr>
                              in if has_deleteQuery ext then
                                   (if deleteQuery_throws ext (fst oldQueryData)
                                    then s3 \<lparr> gpuTimerAvailable := False \<rparr>
                                    else s3 \<lparr> deletedQueries :=
                                                 deletedQueries s3 @ [fst oldQueryData] \<rparr>)
                                 else s3))
                      else s2))
             else s1 \<lparr> gpuTimerAvailable := False \<rparr>))"

text \<open>A run of \<open>measureGPUTiming\<close> calls, each with its clock reading, the behaviour of
  the extension during the call, and the XR flag.\<close>

fun measureGPUTiming_seq :: "(real \<times> gl_ext \<times> bool) list \<Rightarrow> PerformanceMonitor \<Rightarrow> PerformanceMonitor" where
  "measureGPUTiming_seq [] s = s"
| "measureGPUTiming_seq ((now, ext, presenting) # rest) s =
     measureGPUTiming_seq rest (measureGPUTiming now ext presenting s)"

subsection \<open>XR tracking\<close>

text \<open>\<open>trackMotionToPhotonDelay(currentTime)\<close>; \<open>now\<close> is \<open>performance.now()\<close>.\<close>

definition trackMotionToPhotonDelay :: "real \<Rightarrow> real \<Rightarrow> PerformanceMonitor \<Rightarrow> PerformanceMonitor" where
  "trackMotionToPhotonDelay currentTime now s =
     (let h = push_shift 10 \<lparr> ev_timestamp = currentTime, ev_processed = now \<rparr> (motionHistory s);
          avgDelay = foldl (\<lambda>sum event. sum + (ev_processed event - ev_timestamp event)) 0 h
                       / real (length h)
      in s \<lparr> motionHistory := h, metrics := (metrics s)(MotionToPhotonDelay := avgDelay) \<rparr>)"

text \<open>The timeout callback of \<open>trackControllerInputLag()\<close>: \<open>inputTime\<close> was read when
  the event arrived, \<open>processTime\<close> when the callback ran.\<close>

definition trackControllerInputLag :: "real \<Rightarrow> real \<Rightarrow> PerformanceMonitor \<Rightarrow> PerformanceMonitor" where
  "trackControllerInputLag inputTime processTime s =
     (let h = push_shift 20 \<lparr> ev_timestamp = inputTime, ev_processed = processTime \<rparr>
                (controllerInputHistory s);
          avgLag = foldl (\<lambda>sum event. sum + (ev_processed event - ev_timestamp event)) 0 h
                     / real (length h)
      in s \<lparr> controllerInputHistory := h, metrics := (metrics s)(ControllerInputLag := avgLag) \<rparr>)"

text \<open>The synchronous part of \<open>initializeXRSession(session)\<close>.\<close>

definition initializeXRSession :: "real \<Rightarrow> PerformanceMonitor \<Rightarrow> PerformanceMonitor" where
  "initializeXRSession now s =
     s \<lparr> xrSession := True, xrSessionStartTime := now,
         metrics := (metrics s)(XrSessionInitTime := 0) \<rparr>"

text \<open>The closure \<open>trackXRFrame(time)\<close>; \<open>inputSources\<close> is the truthiness of
  \<open>session.inputSources\<close>, \<open>now\<close> the clock reading inside
  \<open>trackMotionToPhotonDelay\<close>.\<close>

definition trackXRFrame :: "real \<Rightarrow> bool \<Rightarrow> real \<Rightarrow> PerformanceMonitor \<Rightarrow> PerformanceMonitor" where
  "trackXRFrame time inputSources now s =
     (let s1 = (if lastXRFrameTime s > 0 then
                  (let deltaTime = time - lastXRFrameTime s;
                       s' = s \<lparr> metrics := (metrics s)(XrFrameRate :=
                                   (if deltaTime > 0 then 1000 / deltaTime else 0)) \<rparr>
                   in if inputSources then trackMotionToPhotonDelay time now s' else s')
                else s)
      in s1 \<lparr> lastXRFrameTime := time \<rparr>)"

text \<open>The frame callback \<open>monitorFrame(time, frame)\<close>; \<open>predicted\<close> is the result of
  \<open>frame.getPredictedDisplayTime()\<close> when the frame has that method.\<close>

definition monitorFrame :: "real \<Rightarrow> bool \<Rightarrow> real \<Rightarrow> real option \<Rightarrow> PerformanceMonitor \<Rightarrow> PerformanceMonitor" where
  "monitorFrame time inputSources now predicted s =
     (let s1 = trackXRFrame time inputSources now s
      in case predicted of
           None \<Rightarrow> s1
         | Some p \<Rightarrow> s1 \<lparr> metrics := (metrics s1)(XrPredictedDisplayTime := p) \<rparr>)"

subsection \<open>Render call timing\<close>

definition startRenderCall :: "real \<Rightarrow> PerformanceMonitor \<Rightarrow> PerformanceMonitor" where
  "startRenderCall now s = s \<lparr> renderCallStartTime := now \<rparr>"

text \<open>\<open>endRenderCall()\<close>; \<open>now\<close> is \<open>performance.now()\<close>.\<close>

definition endRenderCall :: "real \<Rightarrow> PerformanceMonitor \<Rightarrow> PerformanceMonitor" where
  "endRenderCall now s =
     (if renderCallStartTime s > 0 then
        (let duration = now - renderCallStartTime s;
             smoothingFactor = 0.2;
             smoothedDuration = metrics s RenderCallDuration * (1 - smoothingFactor)
                                  + duration * smoothingFactor;
             floored = (if smoothedDuration < 0.5 then 0.5 else smoothedDuration)
         in s \<lparr> metrics := (metrics s)(RenderCallDuration := floored),
                renderCallStartTime := 0 \<rparr>)
      else
        (let estimatedRenderTime =
               max 0.5 (metrics s FrameTime * 0.2 + metrics s DrawCalls * 0.01)
         in s \<lparr> metrics := (metrics s)(RenderCallDuration := estimatedRenderTime) \<rparr>))"

subsection \<open>Construction and disposal\<close>

text \<open>What the constructor finds: whether \<open>window\<close> exists and has
  \<open>PerformanceObserver\<close>, whether creating or starting the GC observer throws, whether
  \<open>observe\<close> of the first observer throws, and the heap size if \<open>performance.memory\<close>
  exists.\<close>

record ctor_env =
  hasWindow :: bool
  hasPerformanceObserver :: bool
  observeThrows :: bool
  newGCObserverThrows :: bool
  gcObserveThrows :: bool
  usedJSHeapSize :: "real option"

text \<open>The constructor, without the first latency measurement that it starts (the
  measurement completes later and is \<open>measureNetworkLatency\<close> above). An observer whose
  \<open>observe\<close> call threw exists but observes nothing.\<close>

definition construct :: "ctor_env \<Rightarrow> PerformanceMonitor" where
  "construct env =
     (let s0 = initial_fields;
          s1 = (if hasWindow env \<and> hasPerformanceObserver env
                then s0 \<lparr> performanceObserver :=
                            Some (if observeThrows env then Released else Active) \<rparr>
                else s0);
          s2 = (if hasWindow env then
                  (case usedJSHeapSize env of
                     None \<Rightarrow> s1
                   | Some h \<Rightarrow> s1 \<lparr> memoryBaseline := h \<rparr>)
                else s1);
          s3 = (if hasWindow env then s2 \<lparr> latencyTestInterval := Some Active \<rparr> else s2);
          s4 = (if hasWindow env \<and> hasPerformanceObserver env then
                  (if newGCObserverThrows env then s3
                   else s3 \<lparr> gcObserver :=
                               Some (if gcObserveThrows env then Released else Active) \<rparr>)
                else s3)
      in s4)"

datatype js_error = TypeError

text \<open>\<open>observer.disconnect()\<close> on the value of a field: a method call on \<open>null\<close>
  throws a \<open>TypeError\<close>; on an observer it releases it, also when it is released
  already. \<open>clearInterval\<close> accepts any value and never throws.\<close>

fun disconnect :: "resource option \<Rightarrow> js_error + resource option" where
  "disconnect None = Inl TypeError"
| "disconnect (Some r) = Inr (Some Released)"

fun clearInterval :: "resource option \<Rightarrow> resource option" where
  "clearInterval None = None"
| "clearInterval (Some r) = Some Released"

text \<open>\<open>dispose()\<close>: three guarded statements, in the order of the source.\<close>

definition dispose :: "PerformanceMonitor \<Rightarrow> js_error + PerformanceMonitor" where
  "dispose s =
     (case (if performanceObserver s \<noteq> None then disconnect (performanceObserver s)
            else Inr (performanceObserver s)) of
        Inl e \<Rightarrow> Inl e
      | Inr po \<Rightarrow>
          (case (if gcObserver s \<noteq> None then disconnect (gcObserver s)
                 else Inr (gcObserver s)) of
             Inl e \<Rightarrow> Inl e
           | Inr gc \<Rightarrow>
               Inr (s \<lparr> performanceObserver := po,
                        gcObserver := gc,
                        latencyTestInterval :=
                          (if latencyTestInterval s \<noteq> None
                           then clearInterval (latencyTestInterval s)
                           else latencyTestInterval s) \<rparr>)))"

subsection \<open>Sequences of calls\<close>

text \<open>The calls that change the monitor, each with the environment readings it makes.
  \<open>updateMetric\<close> is private; it is called from the performance observer callback
  and from \<open>updateRendererStats\<close>. \<open>Dispose\<close> keeps the state when \<open>dispose\<close> throws.\<close>

datatype operation =
    Begin real
  | End real frame_env
  | UpdateMetric real metric_key real
  | MeasureNetworkLatency latency_probe
  | MeasureGPUTiming real gl_ext bool
  | InitializeXRSession real
  | MonitorFrame real bool real "real option"
  | TrackControllerInputLag real real
  | StartRenderCall real
  | EndRenderCall real
  | Dispose

fun apply_op :: "operation \<Rightarrow> PerformanceMonitor \<Rightarrow> PerformanceMonitor" where
  "apply_op (Begin now) s = begin_frame now s"
| "apply_op (End now env) s = end_frame now env s"
| "apply_op (UpdateMetric now key val) s = updateMetric now key val s"
| "apply_op (MeasureNetworkLatency p) s = measureNetworkLatency p s"
| "apply_op (MeasureGPUTiming now ext presenting) s = measureGPUTiming now ext presenting s"
| "apply_op (InitializeXRSession now) s = initializeXRSession now s"
| "apply_op (MonitorFrame time inputSources now predicted) s =
     monitorFrame time inputSources now predicted s"
| "apply_op (TrackControllerInputLag inputTime processTime) s =
     trackControllerInputLag inputTime processTime s"
| "apply_op (StartRenderCall now) s = startRenderCall now s"
| "apply_op (EndRenderCall now) s = endRenderCall now s"
| "apply_op Dispose s = (case dispose s of Inl e \<Rightarrow> s | Inr s' \<Rightarrow> s')"

fun run :: "operation list \<Rightarrow> PerformanceMonitor \<Rightarrow> PerformanceMonitor" where
  "run [] s = s"
| "run (op # ops) s = run ops (apply_op op s)"

subsection \<open>Scenario inputs and auxiliary predicates\<close>

text \<open>The metrics of the estimator scenario: 200 draw calls, 50000 triangles, fragment
  complexity 300, 10 textures, frame time 16, everything else 0.\<close>

definition example_metrics :: "metric_key \<Rightarrow> real" where
  "example_metrics =
     (\<lambda>k. 0)(DrawCalls := 200, Triangles := 50000, GpuFragmentComplexity := 300,
             Textures := 10, FrameTime := 16)"

text \<open>An extension object whose queries never complete: it creates query \<open>q\<close>, begins
  it, and reports every result as not yet available. \<open>can_delete\<close> says whether the
  object has a \<open>deleteQuery\<close> function.\<close>

definition pending_ext :: "bool \<Rightarrow> WebGLQuery \<Rightarrow> gl_ext" where
  "pending_ext can_delete q =
     \<lparr> has_createQuery = True, has_beginQuery = True, TIME_ELAPSED_EXT = True,
       has_deleteQuery = can_delete, has_getQueryParameter = True,
       createQuery = Returns (Some q), beginQuery_throws = False,
       deleteQuery_throws = (\<lambda>q. False), queryAvailable = (\<lambda>q. Returns False),
       queryResult = (\<lambda>q. Returns 0) \<rparr>"

text \<open>A fresh monitor after an extension object was found and tested.\<close>

definition gpu_ready :: PerformanceMonitor where
  "gpu_ready = initial_fields \<lparr> glExtension := True, gpuTimerAvailable := True \<rparr>"

text \<open>The five bounded buffers of the monitor, and their capacities.\<close>

definition windows :: "PerformanceMonitor \<Rightarrow>
    real list \<times> real list \<times> timing_event list \<times> timing_event list \<times> PerformanceChange list" where
  "windows s =
     (frameTimings s, latencyQueue s, motionHistory s, controllerInputHistory s, changes s)"

definition within_capacity :: "PerformanceMonitor \<Rightarrow> bool" where
  "within_capacity s \<longleftrightarrow>
     length (frameTimings s) \<le> 60 \<and> length (latencyQueue s) \<le> 10
     \<and> length (motionHistory s) \<le> 10 \<and> length (controllerInputHistory s) \<le> 20
     \<and> length (changes s) \<le> 100"

text \<open>An update of the \<open>fps\<close> metric through the change detector.\<close>

fun is_fps_update :: "operation \<Rightarrow> bool" where
  "is_fps_update (UpdateMetric now key val) = (key = Fps)"
| "is_fps_update op = False"

section \<open>Properties\<close>

subsection \<open>Change detector\<close>

lemma getSeverity_lower_is_better:
  assumes "m \<in> {''ms'', ''frameTime'', ''drawCalls'', ''triangles''}"
  shows "getSeverity m dp =
           (if dp > 50 then Danger else if dp > 25 then Critical else if dp > 10 then Warning
            else if dp < - 10 then Excellent else Good)"
  using assms by (auto simp: getSeverity_def)

lemma getSeverity_fps:
  "getSeverity ''fps'' dp =
     (if dp > 25 then Excellent else if dp > 10 then Good else if dp < - 25 then Danger
      else if dp < - 10 then Critical else Warning)"
  by (simp add: getSeverity_def)

text \<open>
  Claim C1. The claim says that the delta of an update is taken against the value the
  metric had immediately before. The function reads the old value from
  \<open>previousMetrics[key]\<close>, and stores there the value that \<open>metrics[key]\<close> had before
  the update, not the new one: after two updates \<open>v1\<close>, \<open>v2\<close> the stored value is
  \<open>v1\<close>, so the third update is compared with \<open>v1\<close>. On a fresh monitor the draw-call
  updates 100, 200, 210 record nothing for the step from 100 to 200 (it is compared
  with 0), and for the step from 200 to 210 they record old value 100, delta 110 and
  percent delta 110, where the immediately preceding value gives delta 10 and 5 percent.
\<close>

theorem updateMetric_compares_two_updates_back:
  "previousMetrics (updateMetric n2 k v2 (updateMetric n1 k v1 s)) k = Some v1
   \<and> changes (updateMetric_seq DrawCalls [(1, 100), (2, 200)] initial_fields) = []
   \<and> changes (updateMetric_seq DrawCalls [(1, 100), (2, 200), (3, 210)] initial_fields) =
       [\<lparr> timestamp = 3, metric = ''drawCalls'', oldValue = 100, newValue = 210,
          delta = 110, deltaPercent = 110, severity = Danger \<rparr>]"
  by (simp add: updateMetric_def initial_fields_def Let_def getSeverity_def)



subsection \<open>Frame reports and the change list\<close>

lemma end_frame_changes: "changes (end_frame now env s) = changes s"
  by (simp add: end_frame_def detectMemoryLeaks_def updateFrameMetrics_def Let_def)

lemma updateFrameMetrics_Fps:
  "metrics (updateFrameMetrics env s) Fps =
     (case fpsText env of None \<Rightarrow> metrics s Fps | Some x \<Rightarrow> of_int (round (1000 / x)))"
  by (auto simp: updateFrameMetrics_def Let_def split: option.splits display_media.splits)

lemma end_frame_Fps:
  "fpsText env = Some x \<Longrightarrow> metrics (end_frame now env s) Fps = of_int (round (1000 / x))"
  by (simp add: end_frame_def detectMemoryLeaks_def updateFrameMetrics_Fps Let_def)

lemma run_append: "run (xs @ ys) s = run ys (run xs s)"
  by (induction xs arbitrary: s) auto

lemma run_End_keeps_changes: "changes (run (map (\<lambda>t. End t e) ts) s) = changes s"
  by (induction ts arbitrary: s) (simp_all add: end_frame_changes)

lemma run_End_last_Fps:
  assumes "fpsText e = Some x"
  shows "metrics (run (map (\<lambda>t. End t e) (ts @ [t])) s) Fps = of_int (round (1000 / x))"
  using assms by (simp add: run_append end_frame_Fps)

text \<open>The scenario of claim C3, had the frame rate been passed through
  \<open>updateMetric\<close>: ten updates to 60 and one to 28 give one event, metric \<open>fps\<close>,
  severity \<open>danger\<close>.\<close>

lemma fps_scenario_through_updateMetric:
  "changes (updateMetric_seq Fps
      [(1, 60), (2, 60), (3, 60), (4, 60), (5, 60), (6, 60), (7, 60), (8, 60), (9, 60),
       (10, 60), (11, 28)] initial_fields) =
   [\<lparr> timestamp = 11, metric = ''fps'', oldValue = 60, newValue = 28, delta = - 32,
       deltaPercent = - 160 / 3, severity = Danger \<rparr>]"
  by (simp add: updateMetric_def initial_fields_def Let_def getSeverity_def)

subsection \<open>GPU estimator\<close>

lemma estimateGPUTime_value:
  "metrics (estimateGPUTime s) GpuFrameTime =
     max 0.5 (min (metrics s GpuFrameTime * 0.7 + estimatedGPUTime (metrics s) * 0.3)
                  (metrics s FrameTime * 0.8))"
  by (simp add: estimateGPUTime_def Let_def max_def min_def)

lemma estimateGPUTime_other:
  "k \<noteq> GpuFrameTime \<Longrightarrow> metrics (estimateGPUTime s) k = metrics s k"
  by (simp add: estimateGPUTime_def Let_def)

lemma estimatedGPUTime_cong:
  "m DrawCalls = m' DrawCalls \<Longrightarrow> m Triangles = m' Triangles \<Longrightarrow>
   m GpuFragmentComplexity = m' GpuFragmentComplexity \<Longrightarrow> m Textures = m' Textures \<Longrightarrow>
   estimatedGPUTime m = estimatedGPUTime m'"
  by (simp add: estimatedGPUTime_def)

text \<open>
  Claim C4, as stated, fails twice. First, the lower bound wins over the upper one
  (\<open>Math.max(0.5, Math.min(..., frameTime * 0.8))\<close>): with frame time 0.5, which is
  positive, the result is 0.5 and lies above \<open>frameTime * 0.8 = 0.4\<close>. Second, the
  estimate is smoothed into the previous value before it is clamped: with the inputs
  of the scenario and a previous GPU frame time of 0 the raw estimate is 23.8, and the
  published value is \<open>0.3 * 23.8 = 7.14\<close>, not 12.8.
\<close>

theorem estimateGPUTime_claimed_range_fails:
  "(let s = initial_fields \<lparr> metrics := (\<lambda>k. 0)(FrameTime := 0.5) \<rparr>
    in metrics s FrameTime > 0 \<and> metrics (estimateGPUTime s) GpuFrameTime = 0.5
       \<and> metrics (estimateGPUTime s) GpuFrameTime > metrics s FrameTime * 0.8)
   \<and> (let s = initial_fields \<lparr> metrics := example_metrics \<rparr>
      in estimatedGPUTime (metrics s) = 23.8
         \<and> metrics (estimateGPUTime s) GpuFrameTime = 7.14
         \<and> metrics (estimateGPUTime s) GpuFrameTime \<noteq> 12.8)"
  by (simp add: estimateGPUTime_value estimatedGPUTime_def example_metrics_def Let_def
        initial_fields_def)

text \<open>
  Claim C4, amended. After every call of the estimator the GPU frame time is at least
  0.5; it is at most \<open>frameTime * 0.8\<close> whenever that bound is at least 0.5, and it is
  exactly 0.5 otherwise. For the inputs of the scenario the raw estimate is 23.8 and
  the result is \<open>max 0.5 (min (0.7 * previous + 7.14) 12.8)\<close>: starting from a previous
  value of 0 the first call publishes 7.14, the second 12.138, and the third reaches
  the clamp 12.8.
\<close>

theorem estimateGPUTime_bounds:
  fixes s :: PerformanceMonitor
  defines "g' \<equiv> metrics (estimateGPUTime s) GpuFrameTime"
  shows "g' \<ge> 0.5
     \<and> (metrics s FrameTime * 0.8 \<ge> 0.5 \<longrightarrow> g' \<le> metrics s FrameTime * 0.8)
     \<and> (metrics s FrameTime * 0.8 < 0.5 \<longrightarrow> g' = 0.5)
     \<and> (metrics s DrawCalls = 200 \<and> metrics s Triangles = 50000
          \<and> metrics s GpuFragmentComplexity = 300 \<and> metrics s Textures = 10
          \<and> metrics s FrameTime = 16 \<longrightarrow>
          estimatedGPUTime (metrics s) = 23.8
          \<and> g' = max 0.5 (min (metrics s GpuFrameTime * 0.7 + 7.14) 12.8)
          \<and> (metrics s GpuFrameTime = 0 \<longrightarrow>
                g' = 7.14
                \<and> metrics (estimateGPUTime (estimateGPUTime s)) GpuFrameTime = 12.138
                \<and> metrics (estimateGPUTime (estimateGPUTime (estimateGPUTime s))) GpuFrameTime
                    = 12.8))"
proof -
  have 1: "g' \<ge> 0.5"
    unfolding g'_def estimateGPUTime_value by simp
  have 2: "metrics s FrameTime * 0.8 \<ge> 0.5 \<longrightarrow> g' \<le> metrics s FrameTime * 0.8"
    unfolding g'_def estimateGPUTime_value by (simp add: max_def min_def)
  have 3: "metrics s FrameTime * 0.8 < 0.5 \<longrightarrow> g' = 0.5"
    unfolding g'_def estimateGPUTime_value by (simp add: max_def min_def)
  have 4: "estimatedGPUTime (metrics s) = 23.8
          \<and> g' = max 0.5 (min (metrics s GpuFrameTime * 0.7 + 7.14) 12.8)
          \<and> (metrics s GpuFrameTime = 0 \<longrightarrow>
                g' = 7.14
                \<and> metrics (estimateGPUTime (estimateGPUTime s)) GpuFrameTime = 12.138
                \<and> metrics (estimateGPUTime (estimateGPUTime (estimateGPUTime s))) GpuFrameTime
                    = 12.8)"
    if h: "metrics s DrawCalls = 200" "metrics s Triangles = 50000"
          "metrics s GpuFragmentComplexity = 300" "metrics s Textures = 10"
          "metrics s FrameTime = 16"
  proof -
    have e: "estimatedGPUTime (metrics s) = 23.8"
      using h by (simp add: estimatedGPUTime_def)
    have e1: "estimatedGPUTime (metrics (estimateGPUTime s)) = 23.8"
      using e estimatedGPUTime_cong[of "metrics (estimateGPUTime s)" "metrics s"]
      by (simp add: estimateGPUTime_other)
    have e2: "estimatedGPUTime (metrics (estimateGPUTime (estimateGPUTime s))) = 23.8"
      using e1 estimatedGPUTime_cong[of "metrics (estimateGPUTime (estimateGPUTime s))"
                  "metrics (estimateGPUTime s)"]
      by (simp add: estimateGPUTime_other)
    have f1: "metrics (estimateGPUTime s) FrameTime = 16"
      using h by (simp add: estimateGPUTime_other)
    have f2: "metrics (estimateGPUTime (estimateGPUTime s)) FrameTime = 16"
      using f1 by (simp add: estimateGPUTime_other)
    have a: "g' = max 0.5 (min (metrics s GpuFrameTime * 0.7 + 7.14) 12.8)"
      unfolding g'_def estimateGPUTime_value e using h by simp
    have b: "g' = 7.14
             \<and> metrics (estimateGPUTime (estimateGPUTime s)) GpuFrameTime = 12.138
             \<and> metrics (estimateGPUTime (estimateGPUTime (estimateGPUTime s))) GpuFrameTime
                 = 12.8"
      if z: "metrics s GpuFrameTime = 0"
    proof -
      have g1: "metrics (estimateGPUTime s) GpuFrameTime = 7.14"
        using a z unfolding g'_def by simp
      have g2: "metrics (estimateGPUTime (estimateGPUTime s)) GpuFrameTime = 12.138"
        by (simp add: estimateGPUTime_value[of "estimateGPUTime s"] e1 f1 g1)
      have g3: "metrics (estimateGPUTime (estimateGPUTime (estimateGPUTime s))) GpuFrameTime
                  = 12.8"
        by (simp add: estimateGPUTime_value[of "estimateGPUTime (estimateGPUTime s)"] e2 f2 g2)
      show ?thesis using g1 g2 g3 unfolding g'_def by simp
    qed
    show ?thesis using e a b by blast
  qed
  show ?thesis using 1 2 3 4 by blast
qed

theorem estimateGPUTime_bounds_witness:
  "metrics (estimateGPUTime (initial_fields \<lparr> metrics := example_metrics \<rparr>)) GpuFrameTime = 7.14
   \<and> metrics (estimateGPUTime (estimateGPUTime (estimateGPUTime
        (initial_fields \<lparr> metrics := example_metrics \<rparr>)))) GpuFrameTime = 12.8
   \<and> metrics (estimateGPUTime (initial_fields \<lparr> metrics := (\<lambda>k. 0)(FrameTime := 0.5) \<rparr>))
        GpuFrameTime = 0.5"
  using estimateGPUTime_bounds [of "initial_fields \<lparr> metrics := example_metrics \<rparr>"]
        estimateGPUTime_bounds [of "initial_fields \<lparr> metrics := (\<lambda>k. 0)(FrameTime := 0.5) \<rparr>"]
  by (simp add: example_metrics_def initial_fields_def)

subsection \<open>Render call duration\<close>

text \<open>
  Claim C10. After every call of \<open>endRenderCall\<close> the snapshot's render call duration
  is at least 0.5. A call is unpaired when \<open>renderCallStartTime\<close> is not positive (no
  \<open>startRenderCall\<close> since construction or since the last \<open>endRenderCall\<close>, which resets
  it to 0); then the duration is set to
  \<open>max(0.5, frameTime * 0.2 + drawCalls * 0.01)\<close>. A paired call smooths the measured
  duration into the previous value and raises the result to 0.5. In particular the
  second of two consecutive \<open>endRenderCall\<close>s is unpaired.
\<close>

theorem endRenderCall_floor:
  "metrics (endRenderCall now s) RenderCallDuration \<ge> 0.5
   \<and> (\<not> renderCallStartTime s > 0 \<longrightarrow>
        metrics (endRenderCall now s) RenderCallDuration =
          max 0.5 (metrics s FrameTime * 0.2 + metrics s DrawCalls * 0.01))
   \<and> (renderCallStartTime s > 0 \<longrightarrow>
        metrics (endRenderCall now s) RenderCallDuration =
          max 0.5 (metrics s RenderCallDuration * 0.8 + (now - renderCallStartTime s) * 0.2))
   \<and> metrics (endRenderCall now' (endRenderCall now s)) RenderCallDuration =
        max 0.5 (metrics s FrameTime * 0.2 + metrics s DrawCalls * 0.01)"
  by (simp add: endRenderCall_def Let_def max_def)

theorem endRenderCall_floor_witness:
  "metrics (endRenderCall 12 (initial_fields \<lparr> metrics := example_metrics \<rparr>))
      RenderCallDuration = 5.2
   \<and> metrics (endRenderCall 12 (startRenderCall 10 initial_fields)) RenderCallDuration = 0.5
   \<and> metrics (endRenderCall 40 (startRenderCall 10 initial_fields)) RenderCallDuration = 6"
  using endRenderCall_floor [of 12 "initial_fields \<lparr> metrics := example_metrics \<rparr>" 0]
        endRenderCall_floor [of 12 "startRenderCall 10 initial_fields" 0]
        endRenderCall_floor [of 40 "startRenderCall 10 initial_fields" 0]
  by (simp add: example_metrics_def initial_fields_def startRenderCall_def)

subsection \<open>XR frame rate\<close>








subsection \<open>Disposal\<close>

lemma dispose_result:
  "dispose s =
     Inr (s \<lparr> performanceObserver := map_option (\<lambda>r. Released) (performanceObserver s),
              gcObserver := map_option (\<lambda>r. Released) (gcObserver s),
              latencyTestInterval := map_option (\<lambda>r. Released) (latencyTestInterval s) \<rparr>)"
  by (cases "performanceObserver s"; cases "gcObserver s"; cases "latencyTestInterval s")
     (simp_all add: dispose_def)

text \<open>
  Claim C9, as stated, fails for the GPU resources: \<open>dispose()\<close> has no statement about
  \<open>timerQueries\<close>. After one timing query was issued and is still pending, \<open>dispose()\<close>
  returns normally, the query is still in the pool, and \<open>deleteQuery\<close> was never called.
\<close>

theorem dispose_keeps_gpu_queries:
  "(let s = measureGPUTiming 5 (pending_ext True 1) False gpu_ready
    in timerQueries s = [(1, 5)]
       \<and> (case dispose s of
             Inl e \<Rightarrow> False
           | Inr s' \<Rightarrow> timerQueries s' = [(1, 5)] \<and> deletedQueries s' = []))"
  by (simp add: dispose_result Let_def measureGPUTiming_def processGPUQueries_def
        pending_ext_def gpu_ready_def initial_fields_def estimateGPUTime_def)

text \<open>
  Claim C9, amended. \<open>dispose()\<close> never throws, whatever was initialised: it returns a
  state in which the performance observer, the GC observer and the latency interval
  are released if they existed and are still \<open>null\<close> if they did not. It is
  idempotent: disposing the result again returns the same state. It leaves the
  in-flight GPU timer queries in the pool and deletes none of them. On a monitor on
  which nothing was initialised it changes nothing.
\<close>

theorem dispose_releases_timers_and_observers:
  "(\<exists>s'. dispose s = Inr s'
        \<and> performanceObserver s' = map_option (\<lambda>r. Released) (performanceObserver s)
        \<and> gcObserver s' = map_option (\<lambda>r. Released) (gcObserver s)
        \<and> latencyTestInterval s' = map_option (\<lambda>r. Released) (latencyTestInterval s)
        \<and> timerQueries s' = timerQueries s
        \<and> deletedQueries s' = deletedQueries s
        \<and> dispose s' = Inr s')
   \<and> dispose initial_fields = Inr initial_fields"
proof -
  let ?s' = "s \<lparr> performanceObserver := map_option (\<lambda>r. Released) (performanceObserver s),
                 gcObserver := map_option (\<lambda>r. Released) (gcObserver s),
                 latencyTestInterval := map_option (\<lambda>r. Released) (latencyTestInterval s) \<rparr>"
  have "dispose ?s' = Inr ?s'"
    by (subst dispose_result) (simp add: option.map_comp comp_def)
  moreover have "dispose initial_fields = Inr initial_fields"
    by (subst dispose_result) (simp add: initial_fields_def)
  ultimately show ?thesis
    using dispose_result[of s] by simp
qed

theorem dispose_releases_timers_and_observers_witness:
  "(\<exists>s'. dispose (construct \<lparr> hasWindow = True, hasPerformanceObserver = True,
                              observeThrows = False, newGCObserverThrows = True,
                              gcObserveThrows = False, usedJSHeapSize = None \<rparr>) = Inr s'
        \<and> performanceObserver s' = Some Released
        \<and> gcObserver s' = None
        \<and> latencyTestInterval s' = Some Released
        \<and> dispose s' = Inr s')"
proof -
  let ?c = "construct \<lparr> hasWindow = True, hasPerformanceObserver = True,
                         observeThrows = False, newGCObserverThrows = True,
                         gcObserveThrows = False, usedJSHeapSize = None \<rparr>"
  have f: "performanceObserver ?c = Some Active" "gcObserver ?c = None"
    "latencyTestInterval ?c = Some Active"
    by (simp_all add: construct_def initial_fields_def Let_def)
  from dispose_releases_timers_and_observers [of ?c]
  obtain s' where "dispose ?c = Inr s'"
    and "performanceObserver s' = map_option (\<lambda>r. Released) (performanceObserver ?c)"
    and "gcObserver s' = map_option (\<lambda>r. Released) (gcObserver ?c)"
    and "latencyTestInterval s' = map_option (\<lambda>r. Released) (latencyTestInterval ?c)"
    and "dispose s' = Inr s'"
    by blast
  then show ?thesis
    unfolding f by (intro exI[of _ s']) simp
qed

subsection \<open>Rolling windows\<close>

lemma push_shift_length: "length xs \<le> cap \<Longrightarrow> length (push_shift cap x xs) \<le> cap"
  by (auto simp: push_shift_def Let_def)

lemma push_shift_fifo:
  "0 < cap \<Longrightarrow> push_shift cap x xs = (if length xs < cap then xs else tl xs) @ [x]"
  by (cases xs) (auto simp: push_shift_def Let_def)

lemma push_shift_last:
  "0 < cap \<Longrightarrow> push_shift cap x w \<noteq> [] \<and> last (push_shift cap x w) = x"
  by (cases w) (auto simp: push_shift_def Let_def)

lemma tl_drop_1: "tl ys = drop (Suc 0) ys"
  by (cases ys) simp_all

lemma push_shift_drop:
  assumes "length xs \<le> cap"
  shows "push_shift cap x xs = drop (length (xs @ [x]) - cap) (xs @ [x])"
proof (cases "length xs = cap")
  case True
  then have k: "length (xs @ [x]) - cap = Suc 0" by simp
  have "push_shift cap x xs = tl (xs @ [x])"
    using True by (simp add: push_shift_def Let_def)
  then show ?thesis unfolding k by (simp only: tl_drop_1)
next
  case False
  then have "length xs < cap" using assms by simp
  then show ?thesis by (simp add: push_shift_def Let_def)
qed

text \<open>Pushing the samples \<open>xs\<close> one after the other into a window \<open>w\<close> leaves the
  last \<open>cap\<close> entries of \<open>w @ xs\<close>, in arrival order.\<close>

lemma foldl_push_shift_gen:
  "length w \<le> cap \<Longrightarrow>
   foldl (\<lambda>w x. push_shift cap x w) w xs = drop (length (w @ xs) - cap) (w @ xs)"
proof (induction xs arbitrary: w)
  case Nil
  then show ?case by simp
next
  case (Cons x xs)
  let ?k = "length (w @ [x]) - cap"
  have l: "length (push_shift cap x w) \<le> cap"
    using Cons.prems by (rule push_shift_length)
  have p: "push_shift cap x w = drop ?k (w @ [x])"
    using Cons.prems by (rule push_shift_drop)
  have k: "?k \<le> length (w @ [x])" by simp
  have "foldl (\<lambda>w x. push_shift cap x w) w (x # xs)
        = foldl (\<lambda>w x. push_shift cap x w) (drop ?k (w @ [x])) xs"
    using p by simp
  also have "\<dots> = drop (length (drop ?k (w @ [x]) @ xs) - cap) (drop ?k (w @ [x]) @ xs)"
    using Cons.IH[OF l] p by simp
  also have "drop ?k (w @ [x]) @ xs = drop ?k ((w @ [x]) @ xs)"
    using k by (simp del: append_assoc)
  also have "drop (length (drop ?k ((w @ [x]) @ xs)) - cap) (drop ?k ((w @ [x]) @ xs))
        = drop (length (drop ?k ((w @ [x]) @ xs)) - cap + ?k) ((w @ [x]) @ xs)"
    by (simp only: drop_drop)
  also have "length (drop ?k ((w @ [x]) @ xs)) - cap + ?k = length (w @ x # xs) - cap"
    using Cons.prems by simp
  finally show ?case by simp
qed

lemma foldl_push_shift:
  "foldl (\<lambda>w x. push_shift cap x w) [] xs = drop (length xs - cap) xs"
  using foldl_push_shift_gen[of "[]" cap xs] by simp

lemma foldl_unshift_gen:
  assumes "length cs0 \<le> n"
  shows "foldl (\<lambda>cs c. take n (c # cs)) cs0 xs = take n (rev xs @ cs0)"
  using assms
proof (induction xs arbitrary: cs0)
  case Nil
  then show ?case by simp
next
  case (Cons x xs)
  have "length (take n (x # cs0)) \<le> n" by simp
  from Cons.IH[OF this] show ?case
    using Cons.prems by (cases n) (simp_all add: take_Cons' min_def)
qed

lemma foldl_unshift: "foldl (\<lambda>cs c. take n (c # cs)) [] xs = take n (rev xs)"
  using foldl_unshift_gen[of "[]" n xs] by simp

lemma within_capacity_windows:
  "windows s' = windows s \<Longrightarrow> within_capacity s' = within_capacity s"
  by (simp add: within_capacity_def windows_def)

lemma end_frame_windows:
  "windows (end_frame now env s) =
     (push_shift 60 (now - lastFrameTime s) (frameTimings s), latencyQueue s, motionHistory s,
      controllerInputHistory s, changes s)"
  by (simp add: end_frame_def detectMemoryLeaks_def updateFrameMetrics_def Let_def windows_def)

lemma end_frame_frameTimings:
  "frameTimings (end_frame now env s) = push_shift 60 (now - lastFrameTime s) (frameTimings s)"
  using end_frame_windows[of now env s] by (simp add: windows_def)

lemma end_frame_FrameTime:
  "metrics (end_frame now env s) FrameTime = average (frameTimings (end_frame now env s))"
  using push_shift_last[of 60 "now - lastFrameTime s" "frameTimings s"]
  by (auto simp: end_frame_def detectMemoryLeaks_def updateFrameMetrics_def Let_def
       split: option.splits display_media.splits)

lemma updateMetric_changes:
  "changes (updateMetric now key val s) = changes s
   \<or> (\<exists>c. changes (updateMetric now key val s) = take 100 (c # changes s))"
  by (simp add: updateMetric_def Let_def)

lemma updateMetric_windows:
  "frameTimings (updateMetric now key val s) = frameTimings s"
  "latencyQueue (updateMetric now key val s) = latencyQueue s"
  "motionHistory (updateMetric now key val s) = motionHistory s"
  "controllerInputHistory (updateMetric now key val s) = controllerInputHistory s"
  by (simp_all add: updateMetric_def Let_def)

lemma measureNetworkLatency_windows:
  "windows (measureNetworkLatency p s) =
     (frameTimings s, push_shift 10 (probe_latency p) (latencyQueue s), motionHistory s,
      controllerInputHistory s, changes s)"
  by (simp add: measureNetworkLatency_def Let_def windows_def)

lemma trackMotion_windows:
  "windows (trackMotionToPhotonDelay t now s) =
     (frameTimings s, latencyQueue s,
      push_shift 10 \<lparr> ev_timestamp = t, ev_processed = now \<rparr> (motionHistory s),
      controllerInputHistory s, changes s)"
  by (simp add: trackMotionToPhotonDelay_def Let_def windows_def)

lemma trackController_windows:
  "windows (trackControllerInputLag i p s) =
     (frameTimings s, latencyQueue s, motionHistory s,
      push_shift 20 \<lparr> ev_timestamp = i, ev_processed = p \<rparr> (controllerInputHistory s),
      changes s)"
  by (simp add: trackControllerInputLag_def Let_def windows_def)

subsection \<open>GPU timer queries\<close>

lemma estimateGPUTime_frame:
  "windows (estimateGPUTime s) = windows s"
  "timerQueries (estimateGPUTime s) = timerQueries s"
  "deletedQueries (estimateGPUTime s) = deletedQueries s"
  by (simp_all add: estimateGPUTime_def Let_def windows_def)

lemma check_query_frame:
  assumes "check_query ext qd s = (s', r)"
  shows "windows s' = windows s \<and> timerQueries s' = timerQueries s"
  using assms
  by (auto simp: check_query_def Let_def windows_def split: if_splits outcome.splits)

lemma filter_queries_frame:
  "filter_queries ext qs s = (s', r) \<Longrightarrow>
   windows s' = windows s \<and> timerQueries s' = timerQueries s"
proof (induction qs arbitrary: s s' r)
  case Nil
  then show ?case by simp
next
  case (Cons qd qs)
  obtain s1 r1 where c: "check_query ext qd s = (s1, r1)"
    by (cases "check_query ext qd s")
  note f1 = check_query_frame[OF c]
  show ?case
  proof (cases r1)
    case Throws
    then show ?thesis using Cons.prems c f1 by simp
  next
    case (Returns keep)
    obtain s2 r2 where f: "filter_queries ext qs s1 = (s2, r2)"
      by (cases "filter_queries ext qs s1")
    note f2 = Cons.IH[OF f]
    have "s' = s2" using Cons.prems c f Returns by (cases r2) simp_all
    then show ?thesis using f1 f2 by simp
  qed
qed

text \<open>The filter never returns more entries than it was given.\<close>

lemma filter_queries_length:
  "filter_queries ext qs s = (s', Returns kept) \<Longrightarrow> length kept \<le> length qs"
proof (induction qs arbitrary: s s' kept)
  case Nil
  then show ?case by simp
next
  case (Cons qd qs)
  obtain s1 r1 where c: "check_query ext qd s = (s1, r1)"
    by (cases "check_query ext qd s")
  obtain s2 r2 where f: "filter_queries ext qs s1 = (s2, r2)"
    by (cases "filter_queries ext qs s1")
  from Cons.prems c f obtain keep kept2 where
    r: "r1 = Returns keep" "r2 = Returns kept2" "kept = (if keep then qd # kept2 else kept2)"
    by (cases r1; cases r2) simp_all
  from Cons.IH[of s1 s2 kept2] f r have "length kept2 \<le> length qs" by simp
  then show ?case using r by simp
qed

lemma processGPUQueries_frame: "windows (processGPUQueries ext s) = windows s"
proof (cases "filter_queries ext (timerQueries s) s")
  case (Pair s1 r)
  from filter_queries_frame[OF Pair] have w: "windows s1 = windows s" by simp
  then have w2: "windows (s1 \<lparr> timerQueries := kept \<rparr>) = windows s" for kept
    by (simp add: windows_def)
  show ?thesis
    using Pair w w2
    by (cases r) (simp_all add: processGPUQueries_def Let_def estimateGPUTime_frame)
qed

lemma processGPUQueries_length:
  "length (timerQueries (processGPUQueries ext s)) \<le> length (timerQueries s)"
proof (cases "filter_queries ext (timerQueries s) s")
  case (Pair s1 r)
  from filter_queries_frame[OF Pair] have t: "timerQueries s1 = timerQueries s" by simp
  show ?thesis
  proof (cases r)
    case Throws
    then show ?thesis using Pair t
      by (simp add: processGPUQueries_def Let_def estimateGPUTime_frame)
  next
    case (Returns kept)
    from filter_queries_length Pair Returns have "length kept \<le> length (timerQueries s)"
      by blast
    then show ?thesis using Pair Returns
      by (simp add: processGPUQueries_def Let_def estimateGPUTime_frame)
  qed
qed

lemma measureGPUTiming_frame: "windows (measureGPUTiming now ext presenting s) = windows s"
proof -
  have w: "windows (processGPUQueries ext s) = windows s"
    by (rule processGPUQueries_frame)
  show ?thesis
    unfolding measureGPUTiming_def Let_def
    using w
    by (auto simp: windows_def split: outcome.splits option.splits list.splits)
qed

lemma snoc_eq_Cons_length: "xs @ [y] = a # r \<Longrightarrow> length r = length xs"
  by (drule arg_cong[where f = length]) simp

lemma measureGPUTiming_bound:
  assumes "length (timerQueries s) \<le> 5"
  shows "length (timerQueries (measureGPUTiming now ext presenting s)) \<le> 5"
proof -
  have l: "length (timerQueries (processGPUQueries ext s)) \<le> 5"
    using processGPUQueries_length[of ext s] assms by simp
  show ?thesis
    unfolding measureGPUTiming_def Let_def
    using l assms
    by (auto split: outcome.splits option.splits list.splits dest: snoc_eq_Cons_length)
qed

lemma measureGPUTiming_seq_bound:
  "length (timerQueries s) \<le> 5 \<Longrightarrow> length (timerQueries (measureGPUTiming_seq calls s)) \<le> 5"
proof (induction calls arbitrary: s)
  case Nil
  then show ?case by simp
next
  case (Cons c calls)
  obtain now ext presenting where c: "c = (now, ext, presenting)" by (cases c)
  show ?case using Cons c by (simp add: measureGPUTiming_bound)
qed

lemma measureGPUTiming_evicts:
  assumes "glExtension s" "gpuTimerAvailable s" "has_createQuery ext" "\<not> presenting"
    "createQuery ext = Returns (Some q)" "has_beginQuery ext" "TIME_ELAPSED_EXT ext"
    "\<not> beginQuery_throws ext"
    "timerQueries (processGPUQueries ext s) = old # rest" "length rest = 4"
  shows "timerQueries (measureGPUTiming now ext presenting s) = rest @ [(q, now)]"
    and "has_deleteQuery ext \<Longrightarrow> \<not> deleteQuery_throws ext (fst old) \<Longrightarrow>
           deletedQueries (measureGPUTiming now ext presenting s)
             = deletedQueries (processGPUQueries ext s) @ [fst old]"
    and "\<not> has_deleteQuery ext \<Longrightarrow>
           deletedQueries (measureGPUTiming now ext presenting s)
             = deletedQueries (processGPUQueries ext s)"
  using assms by (simp_all add: measureGPUTiming_def Let_def)

text \<open>Five queries issued to an extension that can delete and never completes: the
  pool holds all five, and draining it for a sixth call removes nothing.\<close>

lemma five_pending_queries:
  "(let s5 = measureGPUTiming_seq
               [(1, pending_ext True 1, False), (2, pending_ext True 2, False),
                (3, pending_ext True 3, False), (4, pending_ext True 4, False),
                (5, pending_ext True 5, False)] gpu_ready
    in timerQueries s5 = [(1, 1), (2, 2), (3, 3), (4, 4), (5, 5)] \<and> deletedQueries s5 = []
       \<and> glExtension s5 \<and> gpuTimerAvailable s5
       \<and> timerQueries (processGPUQueries (pending_ext True 6) s5)
           = [(1, 1), (2, 2), (3, 3), (4, 4), (5, 5)]
       \<and> deletedQueries (processGPUQueries (pending_ext True 6) s5) = [])"
  by (simp add: Let_def measureGPUTiming_def processGPUQueries_def check_query_def
        pending_ext_def gpu_ready_def initial_fields_def estimateGPUTime_def)

text \<open>
  Claim C5, as stated, fails in its last part: the native query object of an evicted
  handle is deleted only behind the test \<open>typeof this.glExtension.deleteQuery ===
  "function"\<close>. With an extension object that has no \<open>deleteQuery\<close> and never completes
  a query, the sixth issue evicts the oldest handle (query 1) from the pool, and no
  native query object has been deleted.
\<close>

theorem evicted_query_not_deleted:
  "(let s6 = measureGPUTiming_seq
               [(1, pending_ext False 1, False), (2, pending_ext False 2, False),
                (3, pending_ext False 3, False), (4, pending_ext False 4, False),
                (5, pending_ext False 5, False), (6, pending_ext False 6, False)] gpu_ready
    in timerQueries s6 = [(2, 2), (3, 3), (4, 4), (5, 5), (6, 6)] \<and> deletedQueries s6 = [])"
  by (simp add: Let_def measureGPUTiming_def processGPUQueries_def check_query_def
        pending_ext_def gpu_ready_def initial_fields_def estimateGPUTime_def)

text \<open>
  Claim C5, amended. After any sequence of \<open>measureGPUTiming\<close> calls, whatever the
  extension does in each of them (results arriving or not, calls throwing or not), a
  pool that held at most 5 entries holds at most 5 entries. When a call issues a query
  (it is created and begun) and the pool, after the completed queries were drained,
  holds 5 entries, the oldest entry is evicted and the new one is appended; the native
  query object of the evicted entry is deleted if the extension has a \<open>deleteQuery\<close>
  function (and the call does not throw), and is not deleted if the extension has
  none.
\<close>

theorem gpu_query_pool_bounded:
  "(length (timerQueries s) \<le> 5 \<longrightarrow> length (timerQueries (measureGPUTiming_seq calls s)) \<le> 5)
   \<and> (glExtension s \<and> gpuTimerAvailable s \<and> has_createQuery ext \<and> \<not> presenting
        \<and> createQuery ext = Returns (Some q) \<and> has_beginQuery ext \<and> TIME_ELAPSED_EXT ext
        \<and> \<not> beginQuery_throws ext
        \<and> timerQueries (processGPUQueries ext s) = old # rest \<and> length rest = 4 \<longrightarrow>
        timerQueries (measureGPUTiming now ext presenting s) = rest @ [(q, now)]
        \<and> (has_deleteQuery ext \<and> \<not> deleteQuery_throws ext (fst old) \<longrightarrow>
             deletedQueries (measureGPUTiming now ext presenting s)
               = deletedQueries (processGPUQueries ext s) @ [fst old])
        \<and> (\<not> has_deleteQuery ext \<longrightarrow>
             deletedQueries (measureGPUTiming now ext presenting s)
               = deletedQueries (processGPUQueries ext s)))"
  using measureGPUTiming_seq_bound[of s calls]
        measureGPUTiming_evicts[of s ext presenting q old rest now]
  by blast

theorem gpu_query_pool_bounded_witness:
  "(let s5 = measureGPUTiming_seq
               [(1, pending_ext True 1, False), (2, pending_ext True 2, False),
                (3, pending_ext True 3, False), (4, pending_ext True 4, False),
                (5, pending_ext True 5, False)] gpu_ready;
        s6 = measureGPUTiming 6 (pending_ext True 6) False s5
    in length (timerQueries s5) \<le> 5
       \<and> timerQueries s6 = [(2, 2), (3, 3), (4, 4), (5, 5), (6, 6)]
       \<and> deletedQueries s6 = [1])"
proof -
  let ?s5 = "measureGPUTiming_seq
               [(1, pending_ext True 1, False), (2, pending_ext True 2, False),
                (3, pending_ext True 3, False), (4, pending_ext True 4, False),
                (5, pending_ext True 5, False)] gpu_ready"
  let ?e = "pending_ext True 6"
  have f: "timerQueries ?s5 = [(1, 1), (2, 2), (3, 3), (4, 4), (5, 5)]"
    "glExtension ?s5" "gpuTimerAvailable ?s5"
    "timerQueries (processGPUQueries ?e ?s5) = (1, 1) # [(2, 2), (3, 3), (4, 4), (5, 5)]"
    "deletedQueries (processGPUQueries ?e ?s5) = []"
    using five_pending_queries unfolding Let_def by simp_all
  have e: "has_createQuery ?e" "createQuery ?e = Returns (Some 6)" "has_beginQuery ?e"
    "TIME_ELAPSED_EXT ?e" "\<not> beginQuery_throws ?e" "has_deleteQuery ?e"
    "\<not> deleteQuery_throws ?e (fst (1::nat, 1::real))"
    by (simp_all add: pending_ext_def)
  have "timerQueries (measureGPUTiming 6 ?e False ?s5) = [(2, 2), (3, 3), (4, 4), (5, 5)] @ [(6, 6)]
        \<and> deletedQueries (measureGPUTiming 6 ?e False ?s5) = [] @ [fst (1::nat, 1::real)]"
    using gpu_query_pool_bounded [of ?s5 "[]" ?e False 6 "(1, 1)" "[(2, 2), (3, 3), (4, 4), (5, 5)]" 6]
      f e by simp
  then show ?thesis
    unfolding Let_def using f(1) by simp
qed

subsection \<open>Capacity of the buffers\<close>

lemma within_capacity_trackMotion:
  "within_capacity s \<Longrightarrow> within_capacity (trackMotionToPhotonDelay t now s)"
  using trackMotion_windows[of t now s]
  by (simp add: within_capacity_def windows_def push_shift_length)

lemma within_capacity_field_updates:
  "within_capacity (s \<lparr> metrics := m \<rparr>) = within_capacity s"
  "within_capacity (s \<lparr> lastXRFrameTime := t \<rparr>) = within_capacity s"
  by (simp_all add: within_capacity_def)

lemma within_capacity_monitorFrame:
  "within_capacity s \<Longrightarrow> within_capacity (monitorFrame time i now p s)"
  by (simp add: monitorFrame_def trackXRFrame_def Let_def within_capacity_field_updates
        within_capacity_trackMotion split: option.splits)

lemma within_capacity_apply_op:
  assumes "within_capacity s"
  shows "within_capacity (apply_op op s)"
proof (cases op)
  case (Begin now)
  then show ?thesis using assms by (simp add: begin_frame_def within_capacity_def)
next
  case (End now env)
  then show ?thesis using assms end_frame_windows[of now env s]
    by (simp add: within_capacity_def windows_def push_shift_length)
next
  case (UpdateMetric now key val)
  have "length (changes (updateMetric now key val s)) \<le> 100"
    using updateMetric_changes[of now key val s] assms by (auto simp: within_capacity_def)
  then show ?thesis using UpdateMetric assms
    by (simp add: within_capacity_def updateMetric_windows)
next
  case (MeasureNetworkLatency p)
  then show ?thesis using assms measureNetworkLatency_windows[of p s]
    by (simp add: within_capacity_def windows_def push_shift_length)
next
  case (MeasureGPUTiming now ext presenting)
  then show ?thesis using assms
    by (simp add: within_capacity_windows[OF measureGPUTiming_frame])
next
  case (InitializeXRSession now)
  then show ?thesis using assms by (simp add: initializeXRSession_def within_capacity_def)
next
  case (MonitorFrame time i now p)
  then show ?thesis using assms by (simp add: within_capacity_monitorFrame)
next
  case (TrackControllerInputLag i p)
  then show ?thesis using assms trackController_windows[of i p s]
    by (simp add: within_capacity_def windows_def push_shift_length)
next
  case (StartRenderCall now)
  then show ?thesis using assms by (simp add: startRenderCall_def within_capacity_def)
next
  case (EndRenderCall now)
  then show ?thesis using assms by (simp add: endRenderCall_def Let_def within_capacity_def)
next
  case Dispose
  then show ?thesis using assms by (simp add: dispose_result within_capacity_def)
qed

lemma within_capacity_run: "within_capacity s \<Longrightarrow> within_capacity (run ops s)"
  by (induction ops arbitrary: s) (simp_all add: within_capacity_apply_op)

lemma within_capacity_construct: "within_capacity (construct env)"
  by (simp add: construct_def Let_def within_capacity_def initial_fields_def split: option.splits)

text \<open>
  Claim C6. After any sequence of calls on a newly constructed monitor, the frame-timing
  window holds at most 60 samples, the latency queue at most 10, the motion history at
  most 10, the controller-input history at most 20 and the change list at most 100
  entries. The four windows are first in, first out: a call appends its sample at the
  end and, when the window was full, removes the entry at the front, so that samples
  pushed one after the other into an empty window leave the most recent ones, oldest
  first. The change list is newest first: an emitted event is put at the front and the
  list is cut to its first 100 entries, so that events emitted one after the other
  leave the most recent 100, newest first.
\<close>

theorem buffers_bounded_fifo:
  "(let s = run ops (construct env)
    in length (frameTimings s) \<le> 60 \<and> length (latencyQueue s) \<le> 10
       \<and> length (motionHistory s) \<le> 10 \<and> length (controllerInputHistory s) \<le> 20
       \<and> length (changes s) \<le> 100)
   \<and> frameTimings (end_frame now fenv s) = push_shift 60 (now - lastFrameTime s) (frameTimings s)
   \<and> latencyQueue (measureNetworkLatency p s) = push_shift 10 (probe_latency p) (latencyQueue s)
   \<and> motionHistory (trackMotionToPhotonDelay t now s) =
        push_shift 10 \<lparr> ev_timestamp = t, ev_processed = now \<rparr> (motionHistory s)
   \<and> controllerInputHistory (trackControllerInputLag t now s) =
        push_shift 20 \<lparr> ev_timestamp = t, ev_processed = now \<rparr> (controllerInputHistory s)
   \<and> (changes (updateMetric now key val s) = changes s
       \<or> (\<exists>c. changes (updateMetric now key val s) = take 100 (c # changes s)))
   \<and> (0 < cap \<longrightarrow> push_shift cap x w = (if length w < cap then w else tl w) @ [x])
   \<and> foldl (\<lambda>w x. push_shift cap x w) [] xs = drop (length xs - cap) xs
   \<and> foldl (\<lambda>cs c. take 100 (c # cs)) [] cs = take 100 (rev cs)"
proof -
  have 1: "within_capacity (run ops (construct env))"
    by (rule within_capacity_run) (rule within_capacity_construct)
  show ?thesis
    using 1 end_frame_windows[of now fenv s] measureNetworkLatency_windows[of p s]
      trackMotion_windows[of t now s] trackController_windows[of t now s]
      updateMetric_changes[of now key val s] push_shift_fifo[of cap x w]
      foldl_push_shift[of cap xs] foldl_unshift[of 100 cs]
    unfolding within_capacity_def windows_def Let_def
    by (simp only: prod.inject) blast
qed

theorem buffers_bounded_fifo_witness:
  "foldl (\<lambda>w x. push_shift 2 x w) [] [1, 2, 3 :: nat] = [2, 3]
   \<and> push_shift 2 (3 :: nat) [1, 2] = [2, 3]
   \<and> foldl (\<lambda>cs c. take 100 (c # cs)) [] [1, 2, 3 :: nat] = [3, 2, 1]
   \<and> length (latencyQueue (run [MeasureNetworkLatency (Fallback 0)]
        (construct \<lparr> hasWindow = False, hasPerformanceObserver = False,
                     observeThrows = False, newGCObserverThrows = False,
                     gcObserveThrows = False, usedJSHeapSize = None \<rparr>))) \<le> 10"
proof -
  note h = buffers_bounded_fifo
             [where ops = "[MeasureNetworkLatency (Fallback 0)]"
                and env = "\<lparr> hasWindow = False, hasPerformanceObserver = False,
                            observeThrows = False, newGCObserverThrows = False,
                            gcObserveThrows = False, usedJSHeapSize = None \<rparr>"
                and cap = 2 and x = "3 :: nat" and w = "[1, 2 :: nat]" and xs = "[1, 2, 3 :: nat]"
                and cs = "[1, 2, 3 :: nat]" and s = initial_fields and now = 0
                and fenv = "\<lparr> fpsText = None, msText = None, heap = None,
                             displayMedia = NoGetDisplayMedia \<rparr>"
                and p = "Fallback 0" and t = 0 and key = Fps and val = 0]
  from h have a: "foldl (\<lambda>w x. push_shift 2 x w) [] [1, 2, 3 :: nat]
                    = drop (length [1, 2, 3 :: nat] - 2) [1, 2, 3]"
    by blast
  from h have "0 < (2 :: nat) \<longrightarrow> push_shift 2 (3 :: nat) [1, 2]
                    = (if length [1, 2 :: nat] < 2 then [1, 2] else tl [1, 2]) @ [3]"
    by blast
  then have b: "push_shift 2 (3 :: nat) [1, 2] = [2, 3]"
    by simp
  from h have c: "foldl (\<lambda>cs c. take 100 (c # cs)) [] [1, 2, 3 :: nat]
                    = take 100 (rev [1, 2, 3])"
    by blast
  from h have d: "length (latencyQueue (run [MeasureNetworkLatency (Fallback 0)]
        (construct \<lparr> hasWindow = False, hasPerformanceObserver = False,
                     observeThrows = False, newGCObserverThrows = False,
                     gcObserveThrows = False, usedJSHeapSize = None \<rparr>))) \<le> 10"
    unfolding Let_def by blast
  show ?thesis
    using a b c d by simp
qed

subsection \<open>Samples offered to the windows\<close>

text \<open>
  Claim C7, as stated, fails: the windows have no finiteness check. The two statements
  that keep a window append whatever value they are given; a \<open>NaN\<close> offered to a
  window that holds the sample 16 is appended, and the window's contents change.
\<close>

theorem non_finite_sample_enters_window:
  "\<not> isFinite NaN \<and> push_shift 60 NaN [Finite 16] = [Finite 16, NaN]
   \<and> push_shift 60 NaN [Finite 16] \<noteq> [Finite 16]"
  by (simp add: push_shift_def)

text \<open>
  Claim C7, amended. No sample is dropped: every value offered to a rolling window,
  finite or not, becomes the newest entry of the window. \<open>end()\<close> pushes
  \<open>now - lastFrameTime\<close> into the frame-timing window and publishes the mean of the
  window, the new sample included, as the snapshot's frame time; the latency probe
  does the same with its sample, the latency queue and the snapshot's network latency.
\<close>

theorem samples_enter_windows_unfiltered:
  fixes x :: js_number
  shows "(0 < cap \<longrightarrow> push_shift cap x w \<noteq> [] \<and> last (push_shift cap x w) = x)
   \<and> frameTimings (end_frame now env s) = push_shift 60 (now - lastFrameTime s) (frameTimings s)
   \<and> metrics (end_frame now env s) FrameTime = average (frameTimings (end_frame now env s))
   \<and> latencyQueue (measureNetworkLatency p s) = push_shift 10 (probe_latency p) (latencyQueue s)
   \<and> metrics (measureNetworkLatency p s) NetworkLatency
        = average (latencyQueue (measureNetworkLatency p s))"
  using push_shift_last[of cap x w] end_frame_frameTimings end_frame_FrameTime
  by (simp add: measureNetworkLatency_def Let_def)

theorem samples_enter_windows_unfiltered_witness:
  "push_shift 60 PosInfinity [Finite 16] \<noteq> []
   \<and> last (push_shift 60 PosInfinity [Finite 16]) = PosInfinity
   \<and> frameTimings (end_frame 30 \<lparr> fpsText = None, msText = None, heap = None,
         displayMedia = NoGetDisplayMedia \<rparr> (begin_frame 10 initial_fields)) = [20]
   \<and> metrics (end_frame 30 \<lparr> fpsText = None, msText = None, heap = None,
         displayMedia = NoGetDisplayMedia \<rparr> (begin_frame 10 initial_fields)) FrameTime = 20"
  using samples_enter_windows_unfiltered
          [of 60 PosInfinity "[Finite 16]" 30
              "\<lparr> fpsText = None, msText = None, heap = None, displayMedia = NoGetDisplayMedia \<rparr>"
              "begin_frame 10 initial_fields" "Fallback 0"]
  by (simp add: begin_frame_def initial_fields_def push_shift_def average_def)


subsection \<open>Frame rate and the change detector\<close>

lemma key_name_fps: "key_name k = ''fps'' \<longleftrightarrow> k = Fps"
  by (cases k) simp_all

lemma updateMetric_no_fps:
  assumes "key \<noteq> Fps" "\<forall>c \<in> set (changes s). metric c \<noteq> ''fps''"
  shows "\<forall>c \<in> set (changes (updateMetric now key val s)). metric c \<noteq> ''fps''"
proof -
  from updateMetric_changes[of now key val s]
  consider "changes (updateMetric now key val s) = changes s"
    | c where "changes (updateMetric now key val s) = take 100 (c # changes s)"
              "metric c = key_name key"
    by (auto simp: updateMetric_def Let_def split: if_splits)
  then show ?thesis
  proof cases
    case 1
    then show ?thesis using assms by simp
  next
    case 2
    have "set (take 100 (c # changes s)) \<subseteq> insert c (set (changes s))"
      using set_take_subset[of 100 "c # changes s"] by simp
    then show ?thesis using 2 assms key_name_fps[of key] by auto
  qed
qed

lemma monitorFrame_windows: "windows (monitorFrame time i now p s) =
   (if lastXRFrameTime s > 0 \<and> i then windows (trackMotionToPhotonDelay time now s) else windows s)"
  by (simp add: monitorFrame_def trackXRFrame_def Let_def windows_def trackMotionToPhotonDelay_def split: option.splits)

lemma changes_windows: "windows s' = windows s \<Longrightarrow> changes s' = changes s"
  by (simp add: windows_def)

lemma apply_op_changes:
  assumes "\<And>now key val. op \<noteq> UpdateMetric now key val"
  shows "changes (apply_op op s) = changes s"
proof (cases op)
  case (UpdateMetric now key val)
  then show ?thesis using assms by simp
next
  case (MeasureGPUTiming now ext presenting)
  then show ?thesis by (simp add: changes_windows[OF measureGPUTiming_frame])
next
  case (MonitorFrame time i now p)
  then show ?thesis
    by (simp add: monitorFrame_def trackXRFrame_def Let_def trackMotionToPhotonDelay_def
          split: option.splits)
next
  case Dispose
  then show ?thesis by (simp add: dispose_result)
qed (simp_all add: begin_frame_def end_frame_changes measureNetworkLatency_def Let_def
       initializeXRSession_def trackControllerInputLag_def startRenderCall_def endRenderCall_def)

lemma apply_op_no_fps:
  assumes "\<not> is_fps_update op" "\<forall>c \<in> set (changes s). metric c \<noteq> ''fps''"
  shows "\<forall>c \<in> set (changes (apply_op op s)). metric c \<noteq> ''fps''"
proof (cases "\<exists>now key val. op = UpdateMetric now key val")
  case True
  then obtain now key val where op: "op = UpdateMetric now key val" by blast
  then have "key \<noteq> Fps" using assms(1) by simp
  then show ?thesis using op assms(2) updateMetric_no_fps by simp
next
  case False
  then have "changes (apply_op op s) = changes s" by (intro apply_op_changes) blast
  then show ?thesis using assms(2) by simp
qed

lemma run_no_fps:
  "\<forall>op \<in> set ops. \<not> is_fps_update op \<Longrightarrow> \<forall>c \<in> set (changes s). metric c \<noteq> ''fps'' \<Longrightarrow>
   \<forall>c \<in> set (changes (run ops s)). metric c \<noteq> ''fps''"
proof (induction ops arbitrary: s)
  case Nil
  then show ?case by simp
next
  case (Cons op ops)
  have "\<forall>c \<in> set (changes (apply_op op s)). metric c \<noteq> ''fps''"
    using Cons.prems by (intro apply_op_no_fps) simp_all
  then show ?case using Cons by simp
qed

lemma construct_changes: "changes (construct env) = []"
  by (simp add: construct_def Let_def initial_fields_def split: option.splits)

text \<open>
  Claim C3. The severity table of the claim is \<open>getSeverity_lower_is_better\<close> and
  \<open>getSeverity_fps\<close> above. Its scenario says that ten frames reporting 60 FPS followed
  by a frame reporting 28 FPS emit a change event for \<open>fps\<close> with severity \<open>danger\<close>.
  The monitor reports the frame rate in \<open>updateFrameMetrics\<close> (called by \<open>end()\<close>), which
  assigns \<open>metrics.fps\<close> directly and never calls \<open>updateMetric\<close>; the callers of
  \<open>updateMetric\<close> pass the frame time, the network latency and the renderer counters,
  never \<open>fps\<close>. So whatever sequence of calls is made that contains no \<open>fps\<close> update
  through \<open>updateMetric\<close>, the change list holds no event for \<open>fps\<close>, and no call of
  \<open>end()\<close> changes the change list. With the panel showing the numbers that give 60
  FPS ten times and then 28 FPS once, the snapshot's \<open>fps\<close> goes from 60 to 28 and the
  change list stays empty.
\<close>

theorem no_fps_change_event_is_emitted:
  "((\<forall>op \<in> set ops. \<not> is_fps_update op) \<longrightarrow>
      (\<forall>c \<in> set (changes (run ops (construct env))). metric c \<noteq> ''fps''))
   \<and> changes (end_frame now fenv s) = changes s
   \<and> (let env60 = \<lparr> fpsText = Some (50 / 3), msText = None, heap = None,
                     displayMedia = NoGetDisplayMedia \<rparr>;
           env28 = \<lparr> fpsText = Some (250 / 7), msText = None, heap = None,
                     displayMedia = NoGetDisplayMedia \<rparr>;
           s10 = run (map (\<lambda>t. End t env60) [1, 2, 3, 4, 5, 6, 7, 8, 9, 10]) initial_fields;
           s11 = end_frame 11 env28 s10
       in metrics s10 Fps = 60 \<and> metrics s11 Fps = 28 \<and> changes s11 = [])"
proof -
  let ?e60 = "\<lparr> fpsText = Some (50 / 3), msText = None, heap = None,
                 displayMedia = NoGetDisplayMedia \<rparr>"
  let ?e28 = "\<lparr> fpsText = Some (250 / 7), msText = None, heap = None,
                 displayMedia = NoGetDisplayMedia \<rparr>"
  let ?s10 = "run (map (\<lambda>t. End t ?e60) [1, 2, 3, 4, 5, 6, 7, 8, 9, 10]) initial_fields"
  have r60: "of_int (round (1000 / (50 / 3 :: real))) = (60 :: real)"
    by (simp add: round_def)
  have r28: "of_int (round (1000 / (250 / 7 :: real))) = (28 :: real)"
    by (simp add: round_def)
  have "metrics (run (map (\<lambda>t. End t ?e60) ([1, 2, 3, 4, 5, 6, 7, 8, 9] @ [10]))
                  initial_fields) Fps
          = of_int (round (1000 / (50 / 3 :: real)))"
    by (rule run_End_last_Fps) simp
  then have 1: "metrics ?s10 Fps = 60"
    by (simp only: r60 append.simps)
  have "metrics (end_frame 11 ?e28 ?s10) Fps = of_int (round (1000 / (250 / 7 :: real)))"
    by (rule end_frame_Fps) simp
  then have 2: "metrics (end_frame 11 ?e28 ?s10) Fps = 28"
    by (simp only: r28)
  have 3: "changes (end_frame 11 ?e28 ?s10) = []"
    by (simp only: end_frame_changes run_End_keeps_changes) (simp add: initial_fields_def)
  have 4: "(\<forall>op \<in> set ops. \<not> is_fps_update op) \<longrightarrow>
      (\<forall>c \<in> set (changes (run ops (construct env))). metric c \<noteq> ''fps'')"
    using run_no_fps[of ops "construct env"] by (simp add: construct_changes)
  show ?thesis
    unfolding Let_def using 1 2 3 4 end_frame_changes by blast
qed

theorem no_fps_change_event_is_emitted_witness:
  "(let env60 = \<lparr> fpsText = Some (50 / 3), msText = None, heap = None,
                  displayMedia = NoGetDisplayMedia \<rparr>;
        env28 = \<lparr> fpsText = Some (250 / 7), msText = None, heap = None,
                  displayMedia = NoGetDisplayMedia \<rparr>;
        s = run [End 1 env60, UpdateMetric 1 FrameTime 16, End 2 env60,
                 UpdateMetric 2 FrameTime 16, End 3 env28, UpdateMetric 3 FrameTime 36]
              (construct \<lparr> hasWindow = False, hasPerformanceObserver = False,
                           observeThrows = False, newGCObserverThrows = False,
                           gcObserveThrows = False, usedJSHeapSize = None \<rparr>)
    in metrics s Fps = 28 \<and> map metric (changes s) = [''frameTime'', ''frameTime'']
       \<and> ''fps'' \<notin> set (map metric (changes s)))"
proof -
  let ?e60 = "\<lparr> fpsText = Some (50 / 3), msText = None, heap = None,
                  displayMedia = NoGetDisplayMedia \<rparr>"
  let ?e28 = "\<lparr> fpsText = Some (250 / 7), msText = None, heap = None,
                  displayMedia = NoGetDisplayMedia \<rparr>"
  let ?ops = "[End 1 ?e60, UpdateMetric 1 FrameTime 16, End 2 ?e60,
               UpdateMetric 2 FrameTime 16, End 3 ?e28, UpdateMetric 3 FrameTime 36]"
  let ?c = "construct \<lparr> hasWindow = False, hasPerformanceObserver = False,
                           observeThrows = False, newGCObserverThrows = False,
                           gcObserveThrows = False, usedJSHeapSize = None \<rparr>"
  have n: "\<forall>op \<in> set ?ops. \<not> is_fps_update op" by simp
  from no_fps_change_event_is_emitted [of ?ops "\<lparr> hasWindow = False, hasPerformanceObserver = False,
                           observeThrows = False, newGCObserverThrows = False,
                           gcObserveThrows = False, usedJSHeapSize = None \<rparr>"] n
  have "\<forall>c \<in> set (changes (run ?ops ?c)). metric c \<noteq> ''fps''"
    by blast
  then have a: "''fps'' \<notin> set (map metric (changes (run ?ops ?c)))"
    by auto
  have b: "metrics (run ?ops ?c) Fps = 28 \<and> map metric (changes (run ?ops ?c)) = [''frameTime'', ''frameTime'']"
    by (simp add: Let_def end_frame_def updateFrameMetrics_def detectMemoryLeaks_def
        updateMetric_def construct_def initial_fields_def push_shift_def average_def
        getSeverity_def round_def)
  show ?thesis
    unfolding Let_def using a b by blast
qed

end
